theory Spec2Isabelle
  imports Main
begin

section \<open>Backend envelopes: unwrapList\<close>

text \<open>
  The values a response body can hold. \<open>unwrapList\<close> takes \<open>unknown\<close>; a body decoded
  from JSON is one of these shapes (plus \<open>undefined\<close> for an absent body). The payload of
  a number is never inspected by the code modelled here. An object is its list of own
  properties; \<open>obj[key]\<close> reads the entry of that key.
\<close>

datatype jsval =
    JUndefined
  | JNull
  | JBool bool
  | JNum int
  | JStr string
  | JArr "jsval list"
  | JObj "(string \<times> jsval) list"

definition isArray :: "jsval \<Rightarrow> bool" where
  "isArray v = (case v of JArr _ \<Rightarrow> True | _ \<Rightarrow> False)"

definition typeof :: "jsval \<Rightarrow> string" where
  "typeof v =
     (case v of
        JUndefined \<Rightarrow> ''undefined''
      | JNull \<Rightarrow> ''object''
      | JBool _ \<Rightarrow> ''boolean''
      | JNum _ \<Rightarrow> ''number''
      | JStr _ \<Rightarrow> ''string''
      | JArr _ \<Rightarrow> ''object''
      | JObj _ \<Rightarrow> ''object'')"

definition getProp :: "jsval \<Rightarrow> string \<Rightarrow> jsval" where
  "getProp v k =
     (case v of
        JObj kvs \<Rightarrow> (case map_of kvs k of Some x \<Rightarrow> x | None \<Rightarrow> JUndefined)
      | _ \<Rightarrow> JUndefined)"

definition elems :: "jsval \<Rightarrow> jsval list" where
  "elems v = (case v of JArr xs \<Rightarrow> xs | _ \<Rightarrow> [])"

text \<open>\<open>unwrapList\<close> of Assets.tsx, Assignments.tsx, Tickets.tsx and App.tsx (the same text).\<close>

definition unwrapList :: "jsval \<Rightarrow> jsval list" where
  "unwrapList data =
     (if isArray data then elems data
      else if typeof data = ''object'' \<and> data \<noteq> JNull then
        (let results = getProp data ''results''
         in if isArray results then elems results else [])
      else [])"


section \<open>The focus coordinator of the list pages\<close>

text \<open>
  A row of a list page: the focus logic reads only \<open>r.id\<close>, so Asset, Assignment and
  Ticket rows are extensions of this record.
\<close>

record row =
  id' :: int

record GridPaginationModel =
  page :: int
  pageSize :: int

text \<open>The pending focus handle \<open>{ id, targetPage, rowIndexWithinPage }\<close>.\<close>

record PendingFocus = row +
  targetPage :: int
  rowIndexWithinPage :: int

text \<open>
  The three closures the page hands to \<open>window.setTimeout\<close>: the page change of the
  focus effect, the arming callback (the same text in the focus effect and in the settle
  effect; it reads \<open>pendingFocusRef.current\<close> when it runs) and the highlight expiry.
\<close>

datatype callback =
    SetPage int
  | Arm
  | ClearHighlight

record timer =
  handle :: nat
  due :: nat
  callback :: callback

text \<open>
  The state of one mounted page: the clock of the event loop in milliseconds, the timers
  of \<open>window.setTimeout\<close> not yet fired or cleared, the React state
  (\<open>paginationModel\<close>, \<open>highlightId\<close>), the two refs, and the row indexes handed to
  \<open>scrollToIndexes\<close> so far.
\<close>

record coordinator =
  now :: nat
  nextHandle :: nat
  timers :: "timer list"
  paginationModel :: GridPaginationModel
  highlightId :: "int option"
  pendingFocusRef :: "PendingFocus option"
  highlightTimerRef :: "nat option"
  scrollRequests :: "int list"

definition initial :: coordinator where
  "initial =
     \<lparr> now = 0, nextHandle = 1, timers = [],
       paginationModel = \<lparr> page = 0, pageSize = 10 \<rparr>,
       highlightId = None, pendingFocusRef = None, highlightTimerRef = None,
       scrollRequests = [] \<rparr>"

text \<open>\<open>window.setTimeout(cb, delay)\<close>: a fresh handle, the callback due at \<open>now + delay\<close>.\<close>

definition setTimeout :: "callback \<Rightarrow> nat \<Rightarrow> coordinator \<Rightarrow> nat \<times> coordinator" where
  "setTimeout cb delay st =
     (nextHandle st,
      st\<lparr> timers := timers st @ [\<lparr> handle = nextHandle st, due = now st + delay, callback = cb \<rparr>],
          nextHandle := nextHandle st + 1 \<rparr>)"

definition clearTimeout :: "nat \<Rightarrow> coordinator \<Rightarrow> coordinator" where
  "clearTimeout h st = st\<lparr> timers := filter (\<lambda>t. handle t \<noteq> h) (timers st) \<rparr>"

text \<open>\<open>Array.prototype.findIndex\<close>: the first index whose element satisfies the test, else -1.\<close>

fun findIndex :: "('a \<Rightarrow> bool) \<Rightarrow> 'a list \<Rightarrow> int" where
  "findIndex P [] = - 1"
| "findIndex P (x # xs) =
     (if P x then 0
      else (let i = findIndex P xs in if i = - 1 then - 1 else i + 1))"

text \<open>
  The focus effect (Assets.tsx 192-227; the same text in Assignments.tsx and Tickets.tsx).
  \<open>focusId\<close> is \<open>number | null\<close>; \<open>!focusId\<close> holds for \<open>null\<close> and for 0.
  \<open>paginationModel.pageSize || 10\<close> is 10 when the page size is 0.
\<close>

definition focusEffect ::
    "int option \<Rightarrow> ('m row_scheme) list \<Rightarrow> coordinator \<Rightarrow> coordinator" where
  "focusEffect focusId filteredRows st =
     (case focusId of
        None \<Rightarrow> st
      | Some f \<Rightarrow>
          if f = 0 then st
          else if length filteredRows = 0 then st
          else
            (let idx = findIndex (\<lambda>r. id' r = f) filteredRows in
             if idx = - 1 then st
             else
               (let ps = (if pageSize (paginationModel st) = 0 then 10
                          else pageSize (paginationModel st));
                    tp = idx div ps;
                    ri = idx - tp * ps;
                    st1 = st\<lparr> pendingFocusRef :=
                             Some \<lparr> id' = f, targetPage = tp, rowIndexWithinPage = ri \<rparr> \<rparr>
                in if page (paginationModel st1) \<noteq> tp
                   then snd (setTimeout (SetPage tp) 0 st1)
                   else snd (setTimeout Arm 0 st1))))"

text \<open>The settle effect (Assets.tsx 229-249, Assignments.tsx; Tickets.tsx has none).\<close>

definition settleEffect :: "coordinator \<Rightarrow> coordinator" where
  "settleEffect st =
     (case pendingFocusRef st of
        None \<Rightarrow> st
      | Some pending \<Rightarrow>
          if targetPage pending \<noteq> page (paginationModel st) then st
          else snd (setTimeout Arm 0 st))"

text \<open>
  The arming callback (Assets.tsx 212-226 and 234-248). The scroll is requested for the
  next frame; here the request is recorded. \<open>if (highlightTimerRef.current)\<close> is false
  for \<open>null\<close> and for the handle 0.
\<close>

definition arm :: "coordinator \<Rightarrow> coordinator" where
  "arm st =
     (case pendingFocusRef st of
        None \<Rightarrow> st
      | Some pending \<Rightarrow>
          (let st1 = st\<lparr> scrollRequests := scrollRequests st @ [rowIndexWithinPage pending] \<rparr>;
               st2 = st1\<lparr> highlightId := Some (id' pending) \<rparr>;
               st3 = (case highlightTimerRef st2 of
                        None \<Rightarrow> st2
                      | Some h \<Rightarrow> if h \<noteq> 0 then clearTimeout h st2 else st2);
               (h', st4) = setTimeout ClearHighlight 4500 st3;
               st5 = st4\<lparr> highlightTimerRef := Some h' \<rparr>
           in st5\<lparr> pendingFocusRef := None \<rparr>))"

definition runCallback :: "callback \<Rightarrow> coordinator \<Rightarrow> coordinator" where
  "runCallback cb st =
     (case cb of
        SetPage tp \<Rightarrow>
          (if page (paginationModel st) = tp then st
           else st\<lparr> paginationModel := (paginationModel st)\<lparr> page := tp \<rparr> \<rparr>)
      | Arm \<Rightarrow> arm st
      | ClearHighlight \<Rightarrow> st\<lparr> highlightId := None \<rparr>)"

text \<open>The cleanup of the mount effect (Assets.tsx 251-255).\<close>

definition unmount :: "coordinator \<Rightarrow> coordinator" where
  "unmount st =
     (case highlightTimerRef st of
        None \<Rightarrow> st
      | Some h \<Rightarrow> if h \<noteq> 0 then clearTimeout h st else st)"

subsection \<open>The event loop\<close>

text \<open>
  A timer fires only when it is still scheduled and its time has come; it is removed
  from the timer list and its callback runs.
\<close>

definition fire :: "nat \<Rightarrow> coordinator \<Rightarrow> coordinator" where
  "fire h st =
     (case find (\<lambda>t. handle t = h) (timers st) of
        None \<Rightarrow> st
      | Some t \<Rightarrow>
          if due t \<le> now st
          then runCallback (callback t) (clearTimeout h st)
          else st)"

definition tick :: "nat \<Rightarrow> coordinator \<Rightarrow> coordinator" where
  "tick d st = st\<lparr> now := now st + d \<rparr>"

text \<open>
  Everything that can happen to a mounted page, with no assumption on when React runs
  an effect or with which rows and focus id: an effect run, a timer firing, time passing,
  the grid's \<open>onPaginationModelChange\<close>, the unmount cleanup.
\<close>

datatype 'r event =
    FocusEffect "int option" "'r list"
  | SettleEffect
  | Fire nat
  | Tick nat
  | SetPagination GridPaginationModel
  | Unmount

definition step :: "('m row_scheme) event \<Rightarrow> coordinator \<Rightarrow> coordinator" where
  "step ev st =
     (case ev of
        FocusEffect focusId filteredRows \<Rightarrow> focusEffect focusId filteredRows st
      | SettleEffect \<Rightarrow> settleEffect st
      | Fire h \<Rightarrow> fire h st
      | Tick d \<Rightarrow> tick d st
      | SetPagination m \<Rightarrow> st\<lparr> paginationModel := m \<rparr>
      | Unmount \<Rightarrow> unmount st)"

fun run :: "('m row_scheme) event list \<Rightarrow> coordinator \<Rightarrow> coordinator" where
  "run [] st = st"
| "run (ev # evs) st = run evs (step ev st)"

text \<open>
  A new focus request takes effect when an arming callback runs with a pending handle:
  the timer \<open>h\<close> arms a highlight when it is scheduled, due, an arming callback, and a
  handle is pending.
\<close>

definition arms :: "nat \<Rightarrow> coordinator \<Rightarrow> bool" where
  "arms h st =
     (case find (\<lambda>t. handle t = h) (timers st) of
        None \<Rightarrow> False
      | Some t \<Rightarrow> callback t = Arm \<and> due t \<le> now st \<and> pendingFocusRef st \<noteq> None)"

text \<open>An event that neither arms a highlight nor unmounts the page.\<close>

definition calm :: "('m row_scheme) event \<Rightarrow> coordinator \<Rightarrow> bool" where
  "calm ev st =
     (case ev of
        Fire h \<Rightarrow> \<not> arms h st
      | Unmount \<Rightarrow> False
      | _ \<Rightarrow> True)"

fun quiet :: "('m row_scheme) event list \<Rightarrow> coordinator \<Rightarrow> bool" where
  "quiet [] st = True"
| "quiet (ev # evs) st = (calm ev st \<and> quiet evs (step ev st))"

text \<open>The highlight timers outstanding: the scheduled \<open>ClearHighlight\<close> callbacks.\<close>

definition highlightTimers :: "coordinator \<Rightarrow> timer list" where
  "highlightTimers st = filter (\<lambda>t. callback t = ClearHighlight) (timers st)"


text \<open>
  What holds of the timers in every state of the event loop: handles are positive, fresh
  and pairwise different, and a scheduled \<open>ClearHighlight\<close> is the one
  \<open>highlightTimerRef\<close> points to.
\<close>

definition timersOk :: "coordinator \<Rightarrow> bool" where
  "timersOk st =
     (0 < nextHandle st
      \<and> distinct (map handle (timers st))
      \<and> list_all (\<lambda>t. 0 < handle t \<and> handle t < nextHandle st) (timers st)
      \<and> list_all (\<lambda>t. highlightTimerRef st = Some (handle t)) (highlightTimers st)
      \<and> (case highlightTimerRef st of None \<Rightarrow> True | Some h \<Rightarrow> 0 < h \<and> h < nextHandle st))"

subsection \<open>The page as React runs it\<close>

text \<open>
  After a state change React renders again and runs the effects whose dependencies
  changed, in the order of the source: the focus effect depends on \<open>focusId\<close>,
  \<open>filteredRows\<close>, \<open>paginationModel.page\<close> and \<open>paginationModel.pageSize\<close>, the
  settle effect on \<open>paginationModel.page\<close>. The render and its effects are taken as one
  step with the state change. The focus id is fixed; the filtered rows change when the
  data, the status filter or the search text change (in Assets.tsx they are memoised on
  these), and then the focus effect alone runs, with the new rows.
\<close>

definition commit ::
    "int option \<Rightarrow> ('m row_scheme) list \<Rightarrow> coordinator \<Rightarrow> coordinator \<Rightarrow> coordinator" where
  "commit focusId filteredRows prev st =
     (let pageChanged = (page (paginationModel st) \<noteq> page (paginationModel prev));
          sizeChanged = (pageSize (paginationModel st) \<noteq> pageSize (paginationModel prev));
          st1 = (if pageChanged \<or> sizeChanged then focusEffect focusId filteredRows st else st)
      in if pageChanged then settleEffect st1 else st1)"

datatype 'r pageEvent =
    TimerFires nat
  | TimePasses nat
  | PaginationModelChange GridPaginationModel
  | FilteredRowsChange "'r list"

text \<open>The filtered rows of the page after an event.\<close>

definition rowsAfter :: "'r list \<Rightarrow> 'r pageEvent \<Rightarrow> 'r list" where
  "rowsAfter filteredRows ev =
     (case ev of FilteredRowsChange rows' \<Rightarrow> rows' | _ \<Rightarrow> filteredRows)"



fun rowsAtEnd :: "'r list \<Rightarrow> 'r pageEvent list \<Rightarrow> 'r list" where
  "rowsAtEnd filteredRows [] = filteredRows"
| "rowsAtEnd filteredRows (ev # evs) = rowsAtEnd (rowsAfter filteredRows ev) evs"

text \<open>The target \<open>f\<close> is among the filtered rows at the start and after every event.\<close>

fun foundThroughout :: "int \<Rightarrow> ('m row_scheme) list \<Rightarrow> ('m row_scheme) pageEvent list \<Rightarrow> bool" where
  "foundThroughout f filteredRows [] = (findIndex (\<lambda>r. id' r = f) filteredRows \<noteq> - 1)"
| "foundThroughout f filteredRows (ev # evs) =
     (findIndex (\<lambda>r. id' r = f) filteredRows \<noteq> - 1
      \<and> foundThroughout f (rowsAfter filteredRows ev) evs)"

subsection \<open>The computation the specification describes\<close>

text \<open>
  The specification's formula for the handle of a target found at index \<open>idx\<close>:
  \<open>targetPage = floor(idx / pageSize)\<close> and
  \<open>rowIndexWithinPage = idx - targetPage * pageSize\<close>; and the page size the effect
  divides by, \<open>paginationModel.pageSize || 10\<close>.
\<close>

definition locate :: "int \<Rightarrow> int \<Rightarrow> int \<Rightarrow> PendingFocus" where
  "locate f idx ps =
     \<lparr> id' = f, targetPage = idx div ps, rowIndexWithinPage = idx - (idx div ps) * ps \<rparr>"

definition usedPageSize :: "coordinator \<Rightarrow> int" where
  "usedPageSize st =
     (if pageSize (paginationModel st) = 0 then 10 else pageSize (paginationModel st))"


text \<open>The highlight armed with timer \<open>T\<close>, due at \<open>d\<close>, for the row \<open>i\<close>.\<close>

definition armed :: "nat \<Rightarrow> nat \<Rightarrow> int \<Rightarrow> coordinator \<Rightarrow> bool" where
  "armed T d i s =
     (timersOk s \<and> highlightTimerRef s = Some T \<and>
      (case find (\<lambda>t. handle t = T) (timers s) of
         Some t \<Rightarrow> due t = d \<and> callback t = ClearHighlight \<and> highlightId s = Some i
       | None \<Rightarrow> highlightId s = None \<and> d \<le> now s))"


section \<open>The authenticated request client\<close>

text \<open>
  The credential pair of authStore.ts. \<open>tokenStore\<close> keeps it serialised under one
  key of the local storage; the storage is modelled by the pair it decodes to, absent
  when the key is not set.
\<close>

record Tokens =
  access :: string
  refresh :: string

text \<open>
  The request configuration, with the \<open>_retry\<close> flag of \<open>RetryConfig\<close> (an absent flag
  reads as false) and the \<open>Authorization\<close> header.
\<close>

record RetryConfig =
  url :: string
  retry :: bool
  authorization :: "string option"

text \<open>An error as the response interceptor inspects it: \<open>error.config\<close> and
  \<open>error.response?.status\<close>.\<close>

record AxiosError =
  config :: "RetryConfig option"
  status :: "nat option"

datatype result = Resolved jsval | Rejected AxiosError

text \<open>
  The backend is outside the program: what it answers to the \<open>k\<close>-th network call is a
  parameter. A request is answered with a body or fails with an optional status; the
  refresh call is answered with a body whose \<open>access\<close> field may be missing, or fails.
\<close>

datatype reply = Reply jsval | Fails "nat option"

datatype refreshReply = RefreshReply "string option" | RefreshFails

record backend =
  answer :: "nat \<Rightarrow> RetryConfig \<Rightarrow> reply"
  refreshAnswer :: "nat \<Rightarrow> string \<Rightarrow> refreshReply"

text \<open>What the client does, in order.\<close>

datatype action =
    Sent RetryConfig
  | MarkedRetry
  | RefreshCall string
  | StoredTokens Tokens
  | ClearedTokens
  | Navigated string

text \<open>
  The browser as the client sees it: the stored credential pair, the target of
  \<open>window.location.assign\<close> if it was called, the number of network calls made, and the
  actions so far.
\<close>

record world =
  store :: "Tokens option"
  assigned :: "string option"
  calls :: nat
  trace :: "action list"

definition tokenStore_get :: "world \<Rightarrow> Tokens option" where
  "tokenStore_get w = store w"

definition tokenStore_set :: "Tokens \<Rightarrow> world \<Rightarrow> world" where
  "tokenStore_set tokens w = w\<lparr> store := Some tokens, trace := trace w @ [StoredTokens tokens] \<rparr>"

definition tokenStore_clear :: "world \<Rightarrow> world" where
  "tokenStore_clear w = w\<lparr> store := None, trace := trace w @ [ClearedTokens] \<rparr>"

definition AUTH_SCHEME :: string where
  "AUTH_SCHEME = ''Bearer''"

definition setAuthHeader :: "RetryConfig \<Rightarrow> string \<Rightarrow> RetryConfig" where
  "setAuthHeader cfg accessToken =
     cfg\<lparr> authorization := Some (AUTH_SCHEME @ '' '' @ accessToken) \<rparr>"

text \<open>The request interceptor (client.ts 57-61); \<open>tokens?.access\<close> is false for an
  absent pair and for the empty string.\<close>

definition requestInterceptor :: "world \<Rightarrow> RetryConfig \<Rightarrow> RetryConfig" where
  "requestInterceptor w cfg =
     (case tokenStore_get w of
        None \<Rightarrow> cfg
      | Some tokens \<Rightarrow> if access tokens \<noteq> [] then setAuthHeader cfg (access tokens) else cfg)"

text \<open>The logout path (client.ts 91-93).\<close>

definition logout :: "AxiosError \<Rightarrow> world \<Rightarrow> result \<times> world" where
  "logout error w =
     (let w1 = tokenStore_clear w;
          w2 = w1\<lparr> assigned := Some ''/login'', trace := trace w1 @ [Navigated ''/login''] \<rparr>
      in (Rejected error, w2))"

text \<open>
  \<open>api.request\<close> with its interceptors, and the rejection handler of the response
  interceptor (client.ts 63-98), which calls \<open>api.request\<close> again for the replay. The
  error of a failed request carries the configuration that was sent; \<open>cfg._retry = true\<close>
  writes to that same object, so the error handed on carries the flag too, and the
  replayed configuration keeps the flag through \<open>api.request\<close>. The promise
  returned from inside \<open>try\<close> is not awaited there, so a failing replay is not caught.
\<close>

function api_request :: "backend \<Rightarrow> RetryConfig \<Rightarrow> world \<Rightarrow> result \<times> world"
  and onRejected :: "backend \<Rightarrow> AxiosError \<Rightarrow> world \<Rightarrow> result \<times> world" where
  "api_request be cfg w =
     (let cfg1 = requestInterceptor w cfg;
          w1 = w\<lparr> calls := calls w + 1, trace := trace w @ [Sent cfg1] \<rparr>
      in case answer be (calls w) cfg1 of
           Reply d \<Rightarrow> (Resolved d, w1)
         | Fails st \<Rightarrow> onRejected be \<lparr> config = Some cfg1, status = st \<rparr> w1)"
| "onRejected be error w =
     (case config error of
        None \<Rightarrow> (Rejected error, w)
      | Some cfg \<Rightarrow>
          if status error = Some 401 \<and> \<not> retry cfg then
            (let cfg' = cfg\<lparr> retry := True \<rparr>;
                 error' = error\<lparr> config := Some cfg' \<rparr>;
                 w1 = w\<lparr> trace := trace w @ [MarkedRetry] \<rparr>
             in case tokenStore_get w1 of
                  None \<Rightarrow> logout error' w1
                | Some tokens \<Rightarrow>
                    if refresh tokens = [] then logout error' w1
                    else
                      (let w2 = w1\<lparr> calls := calls w1 + 1,
                                     trace := trace w1 @ [RefreshCall (refresh tokens)] \<rparr>
                       in case refreshAnswer be (calls w1) (refresh tokens) of
                            RefreshFails \<Rightarrow> logout error' w2
                          | RefreshReply None \<Rightarrow> logout error' w2
                          | RefreshReply (Some newAccess) \<Rightarrow>
                              if newAccess = [] then logout error' w2
                              else
                                api_request be (setAuthHeader cfg' newAccess)
                                  (tokenStore_set
                                     \<lparr> access = newAccess, refresh = refresh tokens \<rparr> w2)))
          else (Rejected error, w))"
  by pat_completeness auto
termination
  by (relation "measure (\<lambda>x. case x of
          Inl (be, cfg, w) \<Rightarrow> (if retry cfg then 1 else 3)
        | Inr (be, error, w) \<Rightarrow>
            (case config error of None \<Rightarrow> 0 | Some c \<Rightarrow> if retry c then 0 else 2))")
     (auto simp: requestInterceptor_def setAuthHeader_def split: option.splits)

declare api_request.simps [simp del] onRejected.simps [simp del]

text \<open>Counting the refresh calls and the requests sent among the actions.\<close>

definition refreshCalls :: "action list \<Rightarrow> nat" where
  "refreshCalls as = length (filter (\<lambda>a. case a of RefreshCall _ \<Rightarrow> True | _ \<Rightarrow> False) as)"

definition requestsSent :: "action list \<Rightarrow> nat" where
  "requestsSent as = length (filter (\<lambda>a. case a of Sent _ \<Rightarrow> True | _ \<Rightarrow> False) as)"


section \<open>Notifications: mark all read\<close>

text \<open>The read fields of a notification (App.tsx 54-71); \<open>null\<close> and an absent field
  are both \<open>None\<close>.\<close>

record NotificationItem = row +
  read_at :: "string option"
  is_read :: "bool option"
  read :: "bool option"

definition isRead :: "NotificationItem \<Rightarrow> bool" where
  "isRead n =
     (if (case read_at n of None \<Rightarrow> False | Some s \<Rightarrow> s \<noteq> []) then True
      else (case is_read n of
              Some b \<Rightarrow> b
            | None \<Rightarrow> (case read n of Some b \<Rightarrow> b | None \<Rightarrow> False)))"

text \<open>
  The notification endpoints: the bulk call answers with a body or fails; whether the
  \<open>k\<close>-th individual patch of the fallback loop succeeds, for the id it patches, is a
  parameter too.
\<close>

record notificationBackend =
  bulkAnswer :: "jsval option"
  patchAnswer :: "nat \<Rightarrow> int \<Rightarrow> bool"

text \<open>The ids whose patch was attempted, and those whose patch the backend accepted.\<close>

record notificationLog =
  attempted :: "int list"
  patched :: "int list"

datatype 'a settled = Fulfilled 'a | Thrown

definition api_patch ::
    "notificationBackend \<Rightarrow> nat \<Rightarrow> int \<Rightarrow> notificationLog \<Rightarrow> unit settled \<times> notificationLog" where
  "api_patch be k i w =
     (let w1 = w\<lparr> attempted := attempted w @ [i] \<rparr>
      in if patchAnswer be k i then (Fulfilled (), w1\<lparr> patched := patched w1 @ [i] \<rparr>)
         else (Thrown, w1))"

text \<open>The loop of the fallback (App.tsx 234-240): the \<open>catch\<close> of each patch is empty.\<close>

fun patchEach ::
    "notificationBackend \<Rightarrow> nat \<Rightarrow> NotificationItem list \<Rightarrow> notificationLog \<Rightarrow> notificationLog" where
  "patchEach be k [] w = w"
| "patchEach be k (n # ns) w =
     (case api_patch be k (id' n) w of
        (Fulfilled _, w1) \<Rightarrow> patchEach be (k + 1) ns w1
      | (Thrown, w1) \<Rightarrow> patchEach be (k + 1) ns w1)"

text \<open>\<open>markAllReadMut.mutationFn\<close> of App.tsx (225-243); \<open>notifications\<close> is
  undefined until the query has loaded.\<close>

definition markAllRead_mutationFn ::
    "notificationBackend \<Rightarrow> NotificationItem list option \<Rightarrow> notificationLog
       \<Rightarrow> jsval option settled \<times> notificationLog" where
  "markAllRead_mutationFn be notifications w =
     (case bulkAnswer be of
        Some response \<Rightarrow> (Fulfilled (Some response), w)
      | None \<Rightarrow>
          (let list = (case notifications of None \<Rightarrow> [] | Some l \<Rightarrow> l);
               unread = filter (\<lambda>n. \<not> isRead n) list
           in (Fulfilled None, patchEach be 0 unread w)))"

text \<open>\<open>markAllRead\<close> of NotificationsDrawerContent.tsx (40-42): the bulk call alone.\<close>

definition markAllRead :: "notificationBackend \<Rightarrow> notificationLog \<Rightarrow> unit settled \<times> notificationLog" where
  "markAllRead be w = (case bulkAnswer be of Some response \<Rightarrow> (Fulfilled (), w) | None \<Rightarrow> (Thrown, w))"


section \<open>Navigation query parameters\<close>



















section \<open>Example data\<close>

text \<open>A filtered sequence of 25 rows with the ids 1 to 25; the row at index 17 has id 18.\<close>

definition rows25 :: "row list" where
  "rows25 = map (\<lambda>i. \<lparr> id' = i \<rparr>)
     [1, 2, 3, 4, 5, 6, 7, 8, 9, 10, 11, 12, 13, 14, 15, 16, 17, 18, 19, 20, 21, 22, 23, 24, 25]"

text \<open>Six notifications, five of them unread (the third has a read date).\<close>

definition sixNotifications :: "NotificationItem list" where
  "sixNotifications =
     [\<lparr> id' = 1, read_at = None, is_read = Some False, read = None \<rparr>,
      \<lparr> id' = 2, read_at = None, is_read = None, read = None \<rparr>,
      \<lparr> id' = 3, read_at = Some ''2026-01-01'', is_read = Some True, read = None \<rparr>,
      \<lparr> id' = 4, read_at = None, is_read = Some False, read = None \<rparr>,
      \<lparr> id' = 5, read_at = None, is_read = None, read = Some False \<rparr>,
      \<lparr> id' = 6, read_at = None, is_read = Some False, read = None \<rparr>]"

text \<open>A backend that rejects every request with 401 and accepts every refresh.\<close>

definition rejecting :: backend where
  "rejecting =
     \<lparr> answer = (\<lambda>k cfg. Fails (Some 401)),
       refreshAnswer = (\<lambda>k r. RefreshReply (Some ''fresh'')) \<rparr>"

text \<open>A backend that rejects every request with 401 and fails every refresh.\<close>

definition refusing :: backend where
  "refusing =
     \<lparr> answer = (\<lambda>k cfg. Fails (Some 401)),
       refreshAnswer = (\<lambda>k r. RefreshFails) \<rparr>"

definition loggedIn :: world where
  "loggedIn =
     \<lparr> store = Some \<lparr> access = ''stale'', refresh = ''keep'' \<rparr>,
       assigned = None, calls = 0, trace = [] \<rparr>"

definition getMe :: RetryConfig where
  "getMe = \<lparr> url = ''/api/me/'', retry = False, authorization = None \<rparr>"






section \<open>Facts about the focus coordinator\<close>

lemma findIndex_lb: "- 1 \<le> findIndex P xs"
  by (induction xs) (auto simp: Let_def)

lemma findIndex_none: "(findIndex P xs = - 1) = (\<forall>x \<in> set xs. \<not> P x)"
proof (induction xs)
  case Nil
  show ?case by simp
next
  case (Cons x xs)
  have "- 1 \<le> findIndex P xs" by (rule findIndex_lb)
  with Cons.IH show ?case by (auto simp: Let_def)
qed

lemma timersOk_initial: "timersOk initial"
  by (simp add: timersOk_def initial_def highlightTimers_def)

lemma timersOk_setTimeout_other:
  assumes "timersOk st" and "cb \<noteq> ClearHighlight"
  shows "timersOk (snd (setTimeout cb d st))"
  using assms
  by (auto simp: timersOk_def setTimeout_def highlightTimers_def list_all_iff split: option.splits)

lemma timersOk_clearTimeout:
  assumes "timersOk st"
  shows "timersOk (clearTimeout h st)"
  using assms
  by (auto simp: timersOk_def clearTimeout_def highlightTimers_def list_all_iff distinct_map_filter split: option.splits)

lemma timersOk_pending [simp]: "timersOk (st\<lparr> pendingFocusRef := p \<rparr>) = timersOk st"
  by (simp add: timersOk_def highlightTimers_def split: option.splits)

lemma timersOk_highlight [simp]: "timersOk (st\<lparr> highlightId := hl \<rparr>) = timersOk st"
  by (simp add: timersOk_def highlightTimers_def split: option.splits)

lemma timersOk_pagination [simp]: "timersOk (st\<lparr> paginationModel := m \<rparr>) = timersOk st"
  by (simp add: timersOk_def highlightTimers_def split: option.splits)

lemma timersOk_scroll [simp]: "timersOk (st\<lparr> scrollRequests := sr \<rparr>) = timersOk st"
  by (simp add: timersOk_def highlightTimers_def split: option.splits)

lemma timersOk_now [simp]: "timersOk (st\<lparr> now := n \<rparr>) = timersOk st"
  by (simp add: timersOk_def highlightTimers_def split: option.splits)

lemma timersOk_focusEffect:
  assumes "timersOk st"
  shows "timersOk (focusEffect focusId filteredRows st)"
  using assms
  by (auto simp: focusEffect_def Let_def timersOk_setTimeout_other split: option.splits)

lemma timersOk_settleEffect:
  assumes "timersOk st"
  shows "timersOk (settleEffect st)"
  using assms
  by (auto simp: settleEffect_def timersOk_setTimeout_other split: option.splits)

lemma arm_highlightTimers:
  assumes "timersOk st" and "pendingFocusRef st = Some p"
  shows "highlightTimers (arm st) = [\<lparr> handle = nextHandle st, due = now st + 4500, callback = ClearHighlight \<rparr>]"
  using assms
  by (auto simp: arm_def Let_def timersOk_def highlightTimers_def clearTimeout_def setTimeout_def list_all_iff filter_empty_conv split: option.splits prod.splits)

lemma timersOk_arm:
  assumes "timersOk st"
  shows "timersOk (arm st)"
  using assms
  by (auto simp: arm_def Let_def timersOk_def highlightTimers_def clearTimeout_def setTimeout_def list_all_iff distinct_map_filter split: option.splits prod.splits)

lemma timersOk_runCallback:
  assumes "timersOk st"
  shows "timersOk (runCallback cb st)"
  using assms by (cases cb) (simp_all add: runCallback_def timersOk_arm)

lemma timersOk_fire:
  assumes "timersOk st"
  shows "timersOk (fire h st)"
  using assms by (simp add: fire_def timersOk_runCallback timersOk_clearTimeout split: option.splits)

lemma timersOk_unmount:
  assumes "timersOk st"
  shows "timersOk (unmount st)"
  using assms by (simp add: unmount_def timersOk_clearTimeout split: option.splits)

lemma timersOk_step:
  assumes "timersOk st"
  shows "timersOk (step ev st)"
  using assms
  by (cases ev) (simp_all add: step_def timersOk_focusEffect timersOk_settleEffect timersOk_fire timersOk_unmount tick_def)

lemma timersOk_run:
  assumes "timersOk st"
  shows "timersOk (run evs st)"
  using assms by (induction evs arbitrary: st) (simp_all add: timersOk_step)

lemma distinct_const_short:
  assumes "distinct xs" and "\<forall>x \<in> set xs. x = c"
  shows "length xs \<le> 1"
proof (cases xs)
  case Nil
  then show ?thesis by simp
next
  case (Cons a as)
  show ?thesis
  proof (cases as)
    case Nil
    with Cons show ?thesis by simp
  next
    case (Cons b bs)
    with \<open>xs = a # as\<close> assms have "a = c" "b = c" "a \<noteq> b" by auto
    then show ?thesis by simp
  qed
qed

lemma at_most_one_highlightTimer:
  assumes "timersOk st"
  shows "length (highlightTimers st) \<le> 1"
proof (cases "highlightTimerRef st")
  case None
  with assms have "highlightTimers st = []"
    by (cases "highlightTimers st") (simp_all add: timersOk_def)
  then show ?thesis by simp
next
  case (Some h)
  have d: "distinct (map handle (highlightTimers st))"
    using assms by (simp add: timersOk_def highlightTimers_def distinct_map_filter)
  have "\<forall>x \<in> set (map handle (highlightTimers st)). x = h"
    using assms Some by (auto simp: timersOk_def list_all_iff)
  with d have "length (map handle (highlightTimers st)) \<le> 1"
    by (rule distinct_const_short)
  then show ?thesis by simp
qed

lemma find_handle_filter:
  "find (\<lambda>t. handle t = T) (filter (\<lambda>t. handle t \<noteq> h) ts) =
     (if h = T then None else find (\<lambda>t. handle t = T) ts)"
  by (induction ts) auto

lemma find_snoc:
  "find P (xs @ [y]) = (case find P xs of Some x \<Rightarrow> Some x | None \<Rightarrow> if P y then Some y else None)"
  by (induction xs) auto

lemma find_in_set: "find P xs = Some x \<Longrightarrow> x \<in> set xs \<and> P x"
  by (induction xs) (auto split: if_splits)

lemma clearHighlight_is_ref:
  assumes "timersOk s" and "find (\<lambda>t. handle t = h) (timers s) = Some t" and "callback t = ClearHighlight"
  shows "highlightTimerRef s = Some h"
proof -
  have "t \<in> set (timers s)" "handle t = h" using assms(2) find_in_set by fastforce+
  with assms(3) have "t \<in> set (highlightTimers s)" by (simp add: highlightTimers_def)
  with assms(1) \<open>handle t = h\<close> show ?thesis by (auto simp: timersOk_def list_all_iff)
qed

lemma find_fresh:
  assumes "timersOk s" and "highlightTimerRef s = Some T"
  shows "find (\<lambda>t. handle t = T) (timers s @ [\<lparr> handle = nextHandle s, due = x, callback = cb \<rparr>])
         = find (\<lambda>t. handle t = T) (timers s)"
proof -
  have "T < nextHandle s" using assms by (simp add: timersOk_def)
  then show ?thesis by (simp add: find_snoc split: option.splits)
qed

lemma armed_setTimeout_other:
  assumes "armed T d i s" and "cb \<noteq> ClearHighlight"
  shows "armed T d i (snd (setTimeout cb x s))"
proof -
  have ok: "timersOk s" and r: "highlightTimerRef s = Some T" using assms by (simp_all add: armed_def)
  have "find (\<lambda>t. handle t = T) (timers (snd (setTimeout cb x s))) = find (\<lambda>t. handle t = T) (timers s)"
    using find_fresh [OF ok r] by (simp add: setTimeout_def)
  moreover have "timersOk (snd (setTimeout cb x s))" using ok assms(2) by (rule timersOk_setTimeout_other)
  ultimately show ?thesis using assms(1) by (simp add: armed_def setTimeout_def split: option.splits)
qed

lemma armed_pending [simp]: "armed T d i (s\<lparr> pendingFocusRef := p \<rparr>) = armed T d i s"
  by (simp add: armed_def split: option.splits)

lemma armed_pagination [simp]: "armed T d i (s\<lparr> paginationModel := m \<rparr>) = armed T d i s"
  by (simp add: armed_def split: option.splits)

lemma armed_focusEffect:
  assumes "armed T d i s"
  shows "armed T d i (focusEffect focusId filteredRows s)"
  using assms
  by (auto simp: focusEffect_def Let_def armed_setTimeout_other split: option.splits)

lemma armed_settleEffect:
  assumes "armed T d i s"
  shows "armed T d i (settleEffect s)"
  using assms
  by (auto simp: settleEffect_def armed_setTimeout_other split: option.splits)

lemma armed_tick:
  assumes "armed T d i s"
  shows "armed T d i (tick x s)"
  using assms by (auto simp: armed_def tick_def split: option.splits)

lemma armed_fire:
  assumes "armed T d i s" and "\<not> arms h s"
  shows "armed T d i (fire h s)"
proof (cases "find (\<lambda>t. handle t = h) (timers s)")
  case None
  then show ?thesis using assms by (simp add: fire_def)
next
  case (Some t)
  have ok: "timersOk s" and r: "highlightTimerRef s = Some T" using assms by (simp_all add: armed_def)
  show ?thesis
  proof (cases "due t \<le> now s")
    case False
    with Some show ?thesis using assms by (simp add: fire_def)
  next
    case True
    have okc: "timersOk (clearTimeout h s)" using ok by (rule timersOk_clearTimeout)
    have fc: "find (\<lambda>t. handle t = T) (timers (clearTimeout h s)) =
                (if h = T then None else find (\<lambda>t. handle t = T) (timers s))"
      by (simp add: clearTimeout_def find_handle_filter)
    show ?thesis
    proof (cases "callback t")
      case (SetPage tp)
      have "h \<noteq> T"
      proof
        assume "h = T"
        with Some assms(1) SetPage show False by (simp add: armed_def)
      qed
      with fc okc r assms(1) Some True SetPage show ?thesis
        by (simp add: fire_def runCallback_def armed_def clearTimeout_def split: option.splits)
    next
      case Arm
      have "h \<noteq> T"
      proof
        assume "h = T"
        with Some assms(1) Arm show False by (simp add: armed_def)
      qed
      moreover have "pendingFocusRef s = None"
        using assms(2) Some True Arm by (simp add: arms_def)
      ultimately show ?thesis using fc okc r assms(1) Some True Arm
        by (simp add: fire_def runCallback_def arm_def armed_def clearTimeout_def split: option.splits)
    next
      case ClearHighlight
      have "highlightTimerRef s = Some h" using ok Some ClearHighlight by (rule clearHighlight_is_ref)
      with r have hT: "h = T" by simp
      have "due t = d" using assms(1) Some hT by (simp add: armed_def)
      with True have "d \<le> now s" by simp
      with fc okc r hT Some True ClearHighlight show ?thesis
        by (simp add: fire_def runCallback_def armed_def clearTimeout_def split: option.splits)
    qed
  qed
qed

lemma armed_step:
  assumes "armed T d i s" and "calm ev s"
  shows "armed T d i (step ev s)"
  using assms
  by (cases ev)
     (simp_all add: step_def calm_def armed_focusEffect armed_settleEffect armed_fire armed_tick)

lemma armed_run:
  assumes "armed T d i s" and "quiet evs s"
  shows "armed T d i (run evs s)"
  using assms by (induction evs arbitrary: s) (simp_all add: armed_step)

lemma find_nextHandle:
  assumes "timersOk st"
  shows "find (\<lambda>t. handle t = nextHandle st) (timers st) = None"
  using assms by (auto simp: timersOk_def list_all_iff find_None_iff)

lemma armed_arm:
  assumes "timersOk st" and "pendingFocusRef st = Some p"
  shows "armed (nextHandle st) (now st + 4500) (id' p) (arm st)"
proof -
  have ok: "timersOk (arm st)" using assms(1) by (rule timersOk_arm)
  have n: "find (\<lambda>t. handle t = nextHandle st) (timers st) = None"
    using assms(1) by (rule find_nextHandle)
  have a: "find (\<lambda>t. handle t = nextHandle st)
          (filter (\<lambda>t. handle t \<noteq> h) (timers st) @ [\<lparr> handle = nextHandle st, due = x, callback = cb \<rparr>])
        = Some \<lparr> handle = nextHandle st, due = x, callback = cb \<rparr>" for h x cb
    using n by (simp add: find_snoc find_handle_filter)
  have b: "find (\<lambda>t. handle t = nextHandle st)
          (timers st @ [\<lparr> handle = nextHandle st, due = x, callback = cb \<rparr>])
        = Some \<lparr> handle = nextHandle st, due = x, callback = cb \<rparr>" for x cb
    using n by (simp add: find_snoc)
  have t: "timers (arm st) =
      (case highlightTimerRef st of None \<Rightarrow> timers st
       | Some h \<Rightarrow> if h \<noteq> 0 then filter (\<lambda>t. handle t \<noteq> h) (timers st) else timers st)
      @ [\<lparr> handle = nextHandle st, due = now st + 4500, callback = ClearHighlight \<rparr>]"
    using assms(2)
    by (simp add: arm_def Let_def setTimeout_def clearTimeout_def split: option.splits prod.splits)
  have f: "find (\<lambda>t. handle t = nextHandle st) (timers (arm st)) =
        Some \<lparr> handle = nextHandle st, due = now st + 4500, callback = ClearHighlight \<rparr>"
    unfolding t using a b by (simp split: option.splits)
  have r: "highlightTimerRef (arm st) = Some (nextHandle st)" "highlightId (arm st) = Some (id' p)"
    using assms(2)
    by (simp_all add: arm_def Let_def setTimeout_def clearTimeout_def split: option.splits prod.splits)
  show ?thesis using ok f r by (simp add: armed_def)
qed

lemma focusEffect_pagination [simp]:
  "paginationModel (focusEffect focusId filteredRows st) = paginationModel st"
  by (simp add: focusEffect_def Let_def setTimeout_def split: option.splits)

lemma settleEffect_pagination [simp]:
  "paginationModel (settleEffect st) = paginationModel st"
  by (simp add: settleEffect_def setTimeout_def split: option.splits)

lemma settleEffect_pending [simp]:
  "pendingFocusRef (settleEffect st) = pendingFocusRef st"
  by (simp add: settleEffect_def setTimeout_def split: option.splits)

lemma settleEffect_scroll [simp]:
  "scrollRequests (settleEffect st) = scrollRequests st"
  by (simp add: settleEffect_def setTimeout_def split: option.splits)

lemma settleEffect_highlight [simp]:
  "highlightId (settleEffect st) = highlightId st"
  by (simp add: settleEffect_def setTimeout_def split: option.splits)

lemma focusEffect_scroll [simp]:
  "scrollRequests (focusEffect focusId filteredRows st) = scrollRequests st"
  by (simp add: focusEffect_def Let_def setTimeout_def split: option.splits)

lemma focusEffect_highlight [simp]:
  "highlightId (focusEffect focusId filteredRows st) = highlightId st"
  by (simp add: focusEffect_def Let_def setTimeout_def split: option.splits)

lemma focusEffect_pending:
  assumes "f \<noteq> 0" and "findIndex (\<lambda>r. id' r = f) filteredRows \<noteq> - 1"
  shows "pendingFocusRef (focusEffect (Some f) filteredRows st) =
           Some (locate f (findIndex (\<lambda>r. id' r = f) filteredRows) (usedPageSize st))"
proof -
  have "filteredRows \<noteq> []" using assms(2) by auto
  then show ?thesis using assms
    by (simp add: focusEffect_def Let_def setTimeout_def locate_def usedPageSize_def)
qed






lemma arm_pending [simp]: "pendingFocusRef (arm st) = None"
  by (simp add: arm_def Let_def setTimeout_def split: option.splits prod.splits)

lemma arm_pagination [simp]: "paginationModel (arm st) = paginationModel st"
  by (simp add: arm_def Let_def setTimeout_def clearTimeout_def split: option.splits prod.splits)


lemma fire_pageSize [simp]: "pageSize (paginationModel (fire h st)) = pageSize (paginationModel st)"
  by (simp add: fire_def runCallback_def clearTimeout_def split: option.splits callback.splits)



lemma foundThroughout_end:
  assumes "foundThroughout f filteredRows evs"
  shows "findIndex (\<lambda>r. id' r = f) (rowsAtEnd filteredRows evs) \<noteq> - 1"
  using assms by (induction evs arbitrary: filteredRows) simp_all







text \<open>What a firing timer does to the scroll requests and the highlight.\<close>

lemma commit_scroll [simp]:
  "scrollRequests (commit focusId filteredRows prev st) = scrollRequests st"
  by (simp add: commit_def Let_def)

lemma commit_highlight [simp]:
  "highlightId (commit focusId filteredRows prev st) = highlightId st"
  by (simp add: commit_def Let_def)



lemma focusEffect_now [simp]:
  "now (focusEffect focusId filteredRows st) = now st"
  by (simp add: focusEffect_def Let_def setTimeout_def split: option.splits)

lemma settleEffect_now [simp]:
  "now (settleEffect st) = now st"
  by (simp add: settleEffect_def setTimeout_def split: option.splits)

lemma commit_now [simp]:
  "now (commit focusId filteredRows prev st) = now st"
  by (simp add: commit_def Let_def)

lemma commit_pagination [simp]:
  "paginationModel (commit focusId filteredRows prev st) = paginationModel st"
  by (simp add: commit_def Let_def)


section \<open>Facts about the request client\<close>

text \<open>A request already marked is sent once and never refreshes.\<close>

lemma replay_once:
  assumes "retry cfg"
  shows "api_request be cfg w =
     (case answer be (calls w) (requestInterceptor w cfg) of
        Reply d \<Rightarrow> Resolved d
      | Fails st \<Rightarrow> Rejected \<lparr> config = Some (requestInterceptor w cfg), status = st \<rparr>,
      w\<lparr> calls := calls w + 1, trace := trace w @ [Sent (requestInterceptor w cfg)] \<rparr>)"
proof -
  have r: "retry (requestInterceptor w cfg)"
    using assms by (simp add: requestInterceptor_def setAuthHeader_def split: option.splits)
  show ?thesis
    using r by (simp add: api_request.simps onRejected.simps Let_def split: reply.splits)
qed

lemma onRejected_passthrough:
  assumes "config error = None \<or> status error \<noteq> Some 401 \<or> (\<exists>c. config error = Some c \<and> retry c)"
  shows "onRejected be error w = (Rejected error, w)"
  using assms by (auto simp: onRejected.simps split: option.splits)

lemma onRejected_no_refresh_token:
  assumes "config error = Some cfg" "status error = Some 401" "\<not> retry cfg"
    and "store w = None \<or> (\<exists>t. store w = Some t \<and> refresh t = [])"
  shows "onRejected be error w =
     (Rejected (error\<lparr> config := Some (cfg\<lparr> retry := True \<rparr>) \<rparr>),
      w\<lparr> store := None, assigned := Some ''/login'',
         trace := trace w @ [MarkedRetry, ClearedTokens, Navigated ''/login''] \<rparr>)"
  using assms
  by (auto simp: onRejected.simps Let_def logout_def tokenStore_get_def tokenStore_clear_def split: option.splits)

lemma onRejected_refresh_failed:
  assumes "config error = Some cfg" "status error = Some 401" "\<not> retry cfg"
    and "store w = Some t" "refresh t \<noteq> []"
    and "refreshAnswer be (calls w) (refresh t) = RefreshFails
         \<or> refreshAnswer be (calls w) (refresh t) = RefreshReply None
         \<or> refreshAnswer be (calls w) (refresh t) = RefreshReply (Some [])"
  shows "onRejected be error w =
     (Rejected (error\<lparr> config := Some (cfg\<lparr> retry := True \<rparr>) \<rparr>),
      w\<lparr> store := None, assigned := Some ''/login'', calls := calls w + 1,
         trace := trace w @ [MarkedRetry, RefreshCall (refresh t), ClearedTokens, Navigated ''/login''] \<rparr>)"
  using assms
  by (auto simp: onRejected.simps Let_def logout_def tokenStore_get_def tokenStore_clear_def split: option.splits)

lemma onRejected_refreshed:
  assumes "config error = Some cfg" "status error = Some 401" "\<not> retry cfg"
    and "store w = Some t" "refresh t \<noteq> []"
    and "refreshAnswer be (calls w) (refresh t) = RefreshReply (Some a)" "a \<noteq> []"
  shows "onRejected be error w =
     api_request be (setAuthHeader (cfg\<lparr> retry := True \<rparr>) a)
       (w\<lparr> calls := calls w + 1, store := Some \<lparr> access = a, refresh = refresh t \<rparr>,
          trace := trace w @ [MarkedRetry, RefreshCall (refresh t),
                              StoredTokens \<lparr> access = a, refresh = refresh t \<rparr>] \<rparr>)"
  using assms
  by (auto simp: onRejected.simps Let_def tokenStore_get_def tokenStore_set_def split: option.splits)


section \<open>Facts about notifications and query parameters\<close>

lemma patchEach_log:
  "attempted (patchEach be k ns w) = attempted w @ map id' ns
   \<and> patched (patchEach be k ns w) =
       patched w @ map (\<lambda>jn. id' (snd jn)) (filter (\<lambda>jn. patchAnswer be (fst jn) (id' (snd jn))) (enumerate k ns))"
  by (induction ns arbitrary: k w) (simp_all add: api_patch_def Let_def)



text \<open>The drawer's \<open>markAllRead\<close> has no fallback: a failing bulk call is thrown on.\<close>

lemma markAllRead_drawer_throws:
  assumes "bulkAnswer be = None"
  shows "markAllRead be w = (Thrown, w)"
  using assms by (simp add: markAllRead_def)


section \<open>The claims\<close>

text \<open>
  C1. For every request, whatever the backend answers: the client does one of four
  things. It sends the request once; or it sends it, marks it as retried and logs out
  without a refresh call (no refresh token); or it sends it, marks it, makes one refresh
  call and logs out (refresh failed); or it sends it, marks it, makes one refresh call,
  stores the new pair and sends the marked request once more. The mark always precedes
  the refresh call. In the last case the answer to the replay is returned as it is: a
  failing replay (a second 401 included) is rejected to the caller with no further
  action. So there is at most one refresh call and at most one replay per request.
\<close>

theorem retry_once:
  "(\<exists>c1 c2 r t.
      trace (snd (api_request be cfg w)) = trace w @ [Sent c1]
    \<or> trace (snd (api_request be cfg w)) =
        trace w @ [Sent c1, MarkedRetry, ClearedTokens, Navigated ''/login'']
    \<or> trace (snd (api_request be cfg w)) =
        trace w @ [Sent c1, MarkedRetry, RefreshCall r, ClearedTokens, Navigated ''/login'']
    \<or> (trace (snd (api_request be cfg w)) =
          trace w @ [Sent c1, MarkedRetry, RefreshCall r, StoredTokens t, Sent c2]
        \<and> retry c2
        \<and> fst (api_request be cfg w) =
            (case answer be (calls w + 2) c2 of
               Reply d \<Rightarrow> Resolved d
             | Fails st \<Rightarrow> Rejected \<lparr> config = Some c2, status = st \<rparr>)))
   \<and> refreshCalls (trace (snd (api_request be cfg w))) \<le> refreshCalls (trace w) + 1
   \<and> requestsSent (trace (snd (api_request be cfg w))) \<le> requestsSent (trace w) + 2"
proof -
  let ?c1 = "requestInterceptor w cfg"
  let ?w1 = "w\<lparr> calls := calls w + 1, trace := trace w @ [Sent ?c1] \<rparr>"
  let ?tr = "trace (snd (api_request be cfg w))"
  let ?A = "\<lambda>c1. ?tr = trace w @ [Sent c1]"
  let ?B = "\<lambda>c1. ?tr = trace w @ [Sent c1, MarkedRetry, ClearedTokens, Navigated ''/login'']"
  let ?C = "\<lambda>c1 r. ?tr = trace w @ [Sent c1, MarkedRetry, RefreshCall r, ClearedTokens, Navigated ''/login'']"
  let ?D = "\<lambda>c1 r t c2. ?tr = trace w @ [Sent c1, MarkedRetry, RefreshCall r, StoredTokens t, Sent c2]
        \<and> retry c2
        \<and> fst (api_request be cfg w) =
            (case answer be (calls w + 2) c2 of
               Reply d \<Rightarrow> Resolved d
             | Fails st \<Rightarrow> Rejected \<lparr> config = Some c2, status = st \<rparr>)"
  have shape: "\<exists>c1 c2 r t. ?A c1 \<or> ?B c1 \<or> ?C c1 r \<or> ?D c1 r t c2"
  proof (cases "answer be (calls w) ?c1")
    case (Reply d)
    then have "?A ?c1" by (simp add: api_request.simps Let_def)
    then show ?thesis by blast
  next
    case (Fails st)
    let ?e = "\<lparr> config = Some ?c1, status = st \<rparr>"
    have req: "api_request be cfg w = onRejected be ?e ?w1"
      using Fails by (simp add: api_request.simps Let_def)
    show ?thesis
    proof (cases "st = Some 401 \<and> \<not> retry ?c1")
      case False
      then have "onRejected be ?e ?w1 = (Rejected ?e, ?w1)"
        by (intro onRejected_passthrough) auto
      with req have "?A ?c1" by simp
      then show ?thesis by blast
    next
      case True
      then have c: "config ?e = Some ?c1" "status ?e = Some 401" "\<not> retry ?c1" by simp_all
      show ?thesis
      proof (cases "store ?w1 = None \<or> (\<exists>t. store ?w1 = Some t \<and> refresh t = [])")
        case True
        from onRejected_no_refresh_token [OF c True, of be] req
        have "?B ?c1" by simp
        then show ?thesis by blast
      next
        case False
        then obtain t where t: "store ?w1 = Some t" "refresh t \<noteq> []" by auto
        show ?thesis
        proof (cases "\<exists>a. refreshAnswer be (calls ?w1) (refresh t) = RefreshReply (Some a) \<and> a \<noteq> []")
          case False
          then have f: "refreshAnswer be (calls ?w1) (refresh t) = RefreshFails
             \<or> refreshAnswer be (calls ?w1) (refresh t) = RefreshReply None
             \<or> refreshAnswer be (calls ?w1) (refresh t) = RefreshReply (Some [])"
            by (cases "refreshAnswer be (calls ?w1) (refresh t)") (auto intro: option.exhaust)
          from onRejected_refresh_failed [OF c t f] req
          have "?C ?c1 (refresh t)" by simp
          then show ?thesis by blast
        next
          case True
          then obtain a where a: "refreshAnswer be (calls ?w1) (refresh t) = RefreshReply (Some a)" "a \<noteq> []"
            by auto
          let ?c' = "setAuthHeader (?c1\<lparr> retry := True \<rparr>) a"
          let ?w3 = "?w1\<lparr> calls := calls ?w1 + 1, store := Some \<lparr> access = a, refresh = refresh t \<rparr>,
                          trace := trace ?w1 @ [MarkedRetry, RefreshCall (refresh t),
                              StoredTokens \<lparr> access = a, refresh = refresh t \<rparr>] \<rparr>"
          have r': "retry ?c'" by (simp add: setAuthHeader_def)
          have eq: "api_request be cfg w = api_request be ?c' ?w3"
            using onRejected_refreshed [OF c t a] req by simp
          have r2: "retry (requestInterceptor ?w3 ?c')"
            by (simp add: requestInterceptor_def setAuthHeader_def tokenStore_get_def split: option.splits)
          have "?D ?c1 (refresh t) \<lparr> access = a, refresh = refresh t \<rparr> (requestInterceptor ?w3 ?c')"
            using r2 unfolding eq replay_once [OF r'] by (simp split: reply.splits)
          then show ?thesis by blast
        qed
      qed
    qed
  qed
  then obtain c1 c2 r t where d: "?A c1 \<or> ?B c1 \<or> ?C c1 r \<or> ?D c1 r t c2" by blast
  then have "refreshCalls ?tr \<le> refreshCalls (trace w) + 1"
    by (auto simp: refreshCalls_def)
  moreover from d have "requestsSent ?tr \<le> requestsSent (trace w) + 2"
    by (auto simp: requestsSent_def)
  ultimately show ?thesis using shape by blast
qed

theorem retry_once_witness:
  "trace (snd (api_request rejecting getMe loggedIn)) =
     [Sent \<lparr> url = ''/api/me/'', retry = False, authorization = Some ''Bearer stale'' \<rparr>,
      MarkedRetry,
      RefreshCall ''keep'',
      StoredTokens \<lparr> access = ''fresh'', refresh = ''keep'' \<rparr>,
      Sent \<lparr> url = ''/api/me/'', retry = True, authorization = Some ''Bearer fresh'' \<rparr>]
   \<and> fst (api_request rejecting getMe loggedIn) =
       Rejected \<lparr> config = Some \<lparr> url = ''/api/me/'', retry = True,
                                   authorization = Some ''Bearer fresh'' \<rparr>,
                  status = Some 401 \<rparr>
   \<and> refreshCalls (trace (snd (api_request rejecting getMe loggedIn))) = 1
   \<and> requestsSent (trace (snd (api_request rejecting getMe loggedIn))) = 2"
  using retry_once [of rejecting getMe loggedIn]
  by (simp add: api_request.simps onRejected.simps rejecting_def getMe_def loggedIn_def Let_def
        requestInterceptor_def setAuthHeader_def AUTH_SCHEME_def tokenStore_get_def
        tokenStore_set_def refreshCalls_def requestsSent_def)

text \<open>
  C2. For a 401 on a request not yet retried: if a refresh token is stored and the
  refresh call answers with a non-empty access token, then after the whole cycle (the
  replay included) the stored pair is the new access token with the refresh token
  unchanged, and the browser has not been navigated by the client. If no pair is stored,
  or the refresh token is empty, or the refresh call fails or answers without an access
  token, then nothing is stored afterwards, the browser is sent to \<open>/login\<close>, and the
  caller gets the original error rejected (its configuration now carrying the retry
  mark).
\<close>

theorem refresh_credentials:
  assumes "config error = Some cfg" and "status error = Some 401" and "\<not> retry cfg"
  shows "(\<forall>t a. store w = Some t \<and> refresh t \<noteq> []
            \<and> refreshAnswer be (calls w) (refresh t) = RefreshReply (Some a) \<and> a \<noteq> []
          \<longrightarrow> store (snd (onRejected be error w)) = Some \<lparr> access = a, refresh = refresh t \<rparr>
              \<and> assigned (snd (onRejected be error w)) = assigned w)
       \<and> ((store w = None
            \<or> (\<exists>t. store w = Some t
                  \<and> (refresh t = []
                     \<or> refreshAnswer be (calls w) (refresh t) = RefreshFails
                     \<or> refreshAnswer be (calls w) (refresh t) = RefreshReply None
                     \<or> refreshAnswer be (calls w) (refresh t) = RefreshReply (Some []))))
          \<longrightarrow> store (snd (onRejected be error w)) = None
              \<and> assigned (snd (onRejected be error w)) = Some ''/login''
              \<and> fst (onRejected be error w) =
                  Rejected (error\<lparr> config := Some (cfg\<lparr> retry := True \<rparr>) \<rparr>))"
proof (intro conjI allI impI)
  fix t a
  assume h: "store w = Some t \<and> refresh t \<noteq> []
      \<and> refreshAnswer be (calls w) (refresh t) = RefreshReply (Some a) \<and> a \<noteq> []"
  have r': "retry (setAuthHeader (cfg\<lparr> retry := True \<rparr>) a)" by (simp add: setAuthHeader_def)
  have eq: "onRejected be error w =
     api_request be (setAuthHeader (cfg\<lparr> retry := True \<rparr>) a)
       (w\<lparr> calls := calls w + 1, store := Some \<lparr> access = a, refresh = refresh t \<rparr>,
          trace := trace w @ [MarkedRetry, RefreshCall (refresh t),
                              StoredTokens \<lparr> access = a, refresh = refresh t \<rparr>] \<rparr>)"
    using h by (intro onRejected_refreshed [OF assms]) simp_all
  show "store (snd (onRejected be error w)) = Some \<lparr> access = a, refresh = refresh t \<rparr>"
    unfolding eq replay_once [OF r'] by simp
  show "assigned (snd (onRejected be error w)) = assigned w"
    unfolding eq replay_once [OF r'] by simp
next
  assume h: "store w = None
            \<or> (\<exists>t. store w = Some t
                  \<and> (refresh t = []
                     \<or> refreshAnswer be (calls w) (refresh t) = RefreshFails
                     \<or> refreshAnswer be (calls w) (refresh t) = RefreshReply None
                     \<or> refreshAnswer be (calls w) (refresh t) = RefreshReply (Some [])))"
  have "onRejected be error w =
          (Rejected (error\<lparr> config := Some (cfg\<lparr> retry := True \<rparr>) \<rparr>),
           snd (onRejected be error w))
        \<and> store (snd (onRejected be error w)) = None
        \<and> assigned (snd (onRejected be error w)) = Some ''/login''"
  proof (cases "store w = None \<or> (\<exists>t. store w = Some t \<and> refresh t = [])")
    case True
    from onRejected_no_refresh_token [OF assms True, of be] show ?thesis by simp
  next
    case False
    with h obtain t where t: "store w = Some t" "refresh t \<noteq> []"
      and f: "refreshAnswer be (calls w) (refresh t) = RefreshFails
         \<or> refreshAnswer be (calls w) (refresh t) = RefreshReply None
         \<or> refreshAnswer be (calls w) (refresh t) = RefreshReply (Some [])"
      by auto
    from onRejected_refresh_failed [OF assms t f] show ?thesis by simp
  qed
  then show "store (snd (onRejected be error w)) = None"
    and "assigned (snd (onRejected be error w)) = Some ''/login''"
    and "fst (onRejected be error w) = Rejected (error\<lparr> config := Some (cfg\<lparr> retry := True \<rparr>) \<rparr>)"
    by (simp_all, metis fst_conv)
qed

theorem refresh_credentials_witness:
  "store (snd (onRejected rejecting \<lparr> config = Some getMe, status = Some 401 \<rparr> loggedIn)) =
     Some \<lparr> access = ''fresh'', refresh = ''keep'' \<rparr>
   \<and> assigned (snd (onRejected rejecting \<lparr> config = Some getMe, status = Some 401 \<rparr> loggedIn)) = None
   \<and> store (snd (onRejected refusing \<lparr> config = Some getMe, status = Some 401 \<rparr> loggedIn)) = None
   \<and> assigned (snd (onRejected refusing \<lparr> config = Some getMe, status = Some 401 \<rparr> loggedIn)) =
       Some ''/login''
   \<and> fst (onRejected refusing \<lparr> config = Some getMe, status = Some 401 \<rparr> loggedIn) =
       Rejected \<lparr> config = Some \<lparr> url = ''/api/me/'', retry = True, authorization = None \<rparr>,
                  status = Some 401 \<rparr>"
proof -
  have c: "config \<lparr> config = Some getMe, status = Some 401 \<rparr> = Some getMe"
    "status \<lparr> config = Some getMe, status = Some 401 \<rparr> = Some 401" "\<not> retry getMe"
    by (simp_all add: getMe_def)
  from refresh_credentials [OF c, of loggedIn rejecting]
       refresh_credentials [OF c, of loggedIn refusing]
  show ?thesis
    by (simp add: loggedIn_def rejecting_def refusing_def getMe_def)
qed

text \<open>
  C3 (as stated, refuted). The target id 0 is found at index 0 of a one-row sequence, yet
  the focus effect computes nothing: \<open>!focusId\<close> holds for 0, so no handle is stored and
  nothing is scheduled. And with the page size 0 the effect does not divide by the page
  size: for the target at index 17 it stores the handle of page size 10.
\<close>

theorem focus_zero_id_counterexample:
  "findIndex (\<lambda>r. id' r = 0) [\<lparr> id' = 0 \<rparr>] = 0
   \<and> pendingFocusRef (focusEffect (Some 0) [\<lparr> id' = 0 \<rparr>] initial) = None
   \<and> timers (focusEffect (Some 0) [\<lparr> id' = 0 \<rparr>] initial) = []
   \<and> findIndex (\<lambda>r. id' r = 18) rows25 = 17
   \<and> pendingFocusRef
        (focusEffect (Some 18) rows25 (initial\<lparr> paginationModel := \<lparr> page = 0, pageSize = 0 \<rparr> \<rparr>))
       = Some (locate 18 17 10)"
  by (simp add: focusEffect_def initial_def rows25_def Let_def setTimeout_def locate_def)

text \<open>
  C3 (amended). For every filtered sequence, every page size and every target id other
  than 0 that is found at index \<open>idx\<close>, the focus effect stores the handle with
  \<open>targetPage = floor(idx / s)\<close> and \<open>rowIndexWithinPage = idx - targetPage * s\<close>, where
  \<open>s\<close> is the page size, or 10 when the page size is 0. In particular, with page size
  10 a target at index 17 gets \<open>targetPage = 1\<close> and \<open>rowIndexWithinPage = 7\<close>.
\<close>

theorem focus_locates:
  assumes "f \<noteq> 0" and "findIndex (\<lambda>r. id' r = f) filteredRows = idx" and "idx \<noteq> - 1"
  shows "pendingFocusRef (focusEffect (Some f) filteredRows st) =
           Some (locate f idx (usedPageSize st))
       \<and> (idx = 17 \<and> pageSize (paginationModel st) = 10 \<longrightarrow>
            pendingFocusRef (focusEffect (Some f) filteredRows st) =
              Some \<lparr> id' = f, targetPage = 1, rowIndexWithinPage = 7 \<rparr>)"
proof -
  have "pendingFocusRef (focusEffect (Some f) filteredRows st) =
          Some (locate f idx (usedPageSize st))"
    using focusEffect_pending [of f filteredRows st] assms by simp
  then show ?thesis by (simp add: locate_def usedPageSize_def)
qed

theorem focus_locates_witness:
  "length rows25 = 25
   \<and> findIndex (\<lambda>r. id' r = 18) rows25 = 17
   \<and> pageSize (paginationModel initial) = 10
   \<and> pendingFocusRef (focusEffect (Some 18) rows25 initial) =
       Some \<lparr> id' = 18, targetPage = 1, rowIndexWithinPage = 7 \<rparr>"
proof -
  have i: "findIndex (\<lambda>r. id' r = 18) rows25 = 17"
    by (simp add: rows25_def Let_def)
  have "(18::int) \<noteq> 0" "(17::int) \<noteq> - 1" by simp_all
  from focus_locates [OF this(1) i this(2), of initial] i
  show ?thesis by (simp add: initial_def rows25_def locate_def usedPageSize_def)
qed

text \<open>
  C4. When the target id is not the id of any row of the filtered sequence, the focus
  effect returns the state it was given: the highlight, the pending handle, the timers
  (so no page change is scheduled) and the pagination model are unchanged. The effect
  has no error result. The text of the effect is the same in Assets.tsx and
  Assignments.tsx.
\<close>

theorem focus_absent_noop:
  assumes "f \<notin> set (map id' filteredRows)"
  shows "focusEffect (Some f) filteredRows st = st"
proof -
  have "findIndex (\<lambda>r. id' r = f) filteredRows = - 1"
    using assms by (auto simp: findIndex_none)
  then show ?thesis by (simp add: focusEffect_def)
qed

theorem focus_absent_noop_witness:
  "focusEffect (Some 26) rows25 initial = initial"
  using focus_absent_noop [of 26 rows25 initial]
  by (simp add: rows25_def)

text \<open>
  C5. Let an arming callback fire with a handle for the row \<open>p\<close> pending, in a state
  the page can reach, and let any events follow that neither arm again nor unmount the
  page (effects may run, other timers may fire, time may pass). Then the timer set by
  the arming is due 4500 ms after the arming; as long as it is outstanding the
  highlight is the row of \<open>p\<close>; once it is gone the highlight is cleared and at least
  4500 ms have passed. Before that time firing it does nothing; from that time on,
  firing it leaves no highlight.
\<close>

theorem highlight_expiry:
  assumes "pendingFocusRef (run evs0 initial) = Some p"
    and "arms h (run evs0 initial)"
    and "quiet evs (fire h (run evs0 initial))"
  shows "(case find (\<lambda>t. handle t = nextHandle (run evs0 initial))
                 (timers (run evs (fire h (run evs0 initial)))) of
            Some t \<Rightarrow>
              due t = now (run evs0 initial) + 4500 \<and> callback t = ClearHighlight
              \<and> highlightId (run evs (fire h (run evs0 initial))) = Some (id' p)
          | None \<Rightarrow>
              highlightId (run evs (fire h (run evs0 initial))) = None
              \<and> now (run evs0 initial) + 4500 \<le> now (run evs (fire h (run evs0 initial))))
       \<and> (now (run evs (fire h (run evs0 initial))) < now (run evs0 initial) + 4500 \<longrightarrow>
            highlightId (run evs (fire h (run evs0 initial))) = Some (id' p)
            \<and> fire (nextHandle (run evs0 initial)) (run evs (fire h (run evs0 initial)))
                = run evs (fire h (run evs0 initial)))
       \<and> (now (run evs0 initial) + 4500 \<le> now (run evs (fire h (run evs0 initial))) \<longrightarrow>
            highlightId (fire (nextHandle (run evs0 initial))
                              (run evs (fire h (run evs0 initial)))) = None)"
proof -
  let ?st = "run evs0 initial"
  let ?T = "nextHandle ?st"
  let ?d = "now ?st + 4500"
  let ?s = "run evs (fire h ?st)"
  have ok: "timersOk ?st" using timersOk_initial by (rule timersOk_run)
  from assms(2) obtain t where t: "find (\<lambda>t. handle t = h) (timers ?st) = Some t"
    "callback t = Arm" "due t \<le> now ?st"
    by (auto simp: arms_def split: option.splits)
  have f: "fire h ?st = arm (clearTimeout h ?st)"
    using t by (simp add: fire_def runCallback_def)
  have okc: "timersOk (clearTimeout h ?st)" using ok by (rule timersOk_clearTimeout)
  have pc: "pendingFocusRef (clearTimeout h ?st) = Some p"
    using assms(1) by (simp add: clearTimeout_def)
  have "armed ?T ?d (id' p) (fire h ?st)"
    using armed_arm [OF okc pc] unfolding f by (simp add: clearTimeout_def)
  then have a: "armed ?T ?d (id' p) ?s" using assms(3) by (rule armed_run)
  show ?thesis
  proof (cases "find (\<lambda>t. handle t = ?T) (timers ?s)")
    case None
    with a have n: "highlightId ?s = None" "?d \<le> now ?s" by (simp_all add: armed_def)
    have "fire ?T ?s = ?s" using None by (simp add: fire_def)
    with None n show ?thesis by simp
  next
    case (Some u)
    with a have u: "due u = ?d" "callback u = ClearHighlight" "highlightId ?s = Some (id' p)"
      by (simp_all add: armed_def)
    have early: "fire ?T ?s = ?s" if "now ?s < ?d"
      using Some u(1) that by (simp add: fire_def)
    have late: "highlightId (fire ?T ?s) = None" if "?d \<le> now ?s"
      using Some u(1,2) that by (simp add: fire_def runCallback_def)
    from Some u early late show ?thesis by simp
  qed
qed

theorem highlight_expiry_witness:
  "arms 1 (run [FocusEffect (Some 7) [\<lparr> id' = 7 \<rparr>]] initial)
   \<and> quiet ([Tick 4499, Fire 2, SettleEffect] :: row event list)
        (fire 1 (run [FocusEffect (Some 7) [\<lparr> id' = 7 \<rparr>]] initial))
   \<and> highlightId (run ([Tick 4499, Fire 2, SettleEffect] :: row event list)
                     (fire 1 (run [FocusEffect (Some 7) [\<lparr> id' = 7 \<rparr>]] initial))) = Some 7
   \<and> quiet ([Tick 4499, Fire 2, Tick 1] :: row event list)
        (fire 1 (run [FocusEffect (Some 7) [\<lparr> id' = 7 \<rparr>]] initial))
   \<and> highlightId (fire 2 (run ([Tick 4499, Fire 2, Tick 1] :: row event list)
                     (fire 1 (run [FocusEffect (Some 7) [\<lparr> id' = 7 \<rparr>]] initial)))) = None"
proof -
  let ?r = "[\<lparr> id' = 7 \<rparr>] :: row list"
  let ?st = "run [FocusEffect (Some 7) ?r] initial"
  let ?e1 = "[Tick 4499, Fire 2, SettleEffect] :: row event list"
  let ?e2 = "[Tick 4499, Fire 2, Tick 1] :: row event list"
  have st: "?st =
      \<lparr> now = 0, nextHandle = 2,
        timers = [\<lparr> handle = 1, due = 0, callback = Arm \<rparr>],
        paginationModel = \<lparr> page = 0, pageSize = 10 \<rparr>,
        highlightId = None,
        pendingFocusRef = Some \<lparr> id' = 7, targetPage = 0, rowIndexWithinPage = 0 \<rparr>,
        highlightTimerRef = None, scrollRequests = [] \<rparr>"
    by (simp add: initial_def step_def focusEffect_def Let_def setTimeout_def)
  have f1: "fire 1 ?st =
      \<lparr> now = 0, nextHandle = 3,
        timers = [\<lparr> handle = 2, due = 4500, callback = ClearHighlight \<rparr>],
        paginationModel = \<lparr> page = 0, pageSize = 10 \<rparr>,
        highlightId = Some 7,
        pendingFocusRef = None,
        highlightTimerRef = Some 2, scrollRequests = [0] \<rparr>"
    unfolding st by (simp add: fire_def runCallback_def arm_def Let_def clearTimeout_def setTimeout_def)
  have p: "pendingFocusRef ?st = Some \<lparr> id' = 7, targetPage = 0, rowIndexWithinPage = 0 \<rparr>"
    unfolding st by simp
  have a: "arms 1 ?st" unfolding st by (simp add: arms_def)
  have q1: "quiet ?e1 (fire 1 ?st)"
    unfolding f1 by (simp add: calm_def arms_def step_def tick_def fire_def)
  have q2: "quiet ?e2 (fire 1 ?st)"
    unfolding f1 by (simp add: calm_def arms_def step_def tick_def fire_def)
  have n1: "now (run ?e1 (fire 1 ?st)) < now ?st + 4500"
    unfolding f1 unfolding st by (simp add: step_def tick_def fire_def settleEffect_def)
  have n2: "now ?st + 4500 \<le> now (run ?e2 (fire 1 ?st))"
    unfolding f1 unfolding st by (simp add: step_def tick_def fire_def)
  have T: "nextHandle ?st = 2" unfolding st by simp
  have i: "id' \<lparr> id' = 7, targetPage = 0, rowIndexWithinPage = 0 \<rparr> = (7::int)" by simp
  from highlight_expiry [OF p a q1, THEN conjunct2, THEN conjunct1] n1
  have r1: "highlightId (run ?e1 (fire 1 ?st)) = Some 7" unfolding i by blast
  from highlight_expiry [OF p a q2, THEN conjunct2, THEN conjunct2] n2
  have r2: "highlightId (fire 2 (run ?e2 (fire 1 ?st))) = None" unfolding T by blast
  from a q1 r1 q2 r2 show ?thesis by blast
qed

text \<open>
  C6. In every state the event loop can reach from the mounted page, whatever effects
  run and whatever timers fire, at most one highlight timer is outstanding (and the
  highlight is one optional id). When an arming callback fires with a handle pending,
  the highlight timers afterwards are exactly the fresh one, due 4500 ms later: the
  timer of an earlier highlight has been cleared.
\<close>

theorem one_highlight_timer:
  "length (highlightTimers (run evs initial)) \<le> 1
   \<and> (arms h (run evs initial) \<longrightarrow>
        highlightTimers (fire h (run evs initial)) =
          [\<lparr> handle = nextHandle (run evs initial),
              due = now (run evs initial) + 4500,
              callback = ClearHighlight \<rparr>])"
proof -
  let ?st = "run evs initial"
  have ok: "timersOk ?st" using timersOk_initial by (rule timersOk_run)
  have one: "length (highlightTimers ?st) \<le> 1" using ok by (rule at_most_one_highlightTimer)
  have "highlightTimers (fire h ?st) =
          [\<lparr> handle = nextHandle ?st, due = now ?st + 4500, callback = ClearHighlight \<rparr>]"
    if a: "arms h ?st"
  proof -
    from a obtain t where t: "find (\<lambda>t. handle t = h) (timers ?st) = Some t"
      "callback t = Arm" "due t \<le> now ?st"
      by (auto simp: arms_def split: option.splits)
    from a obtain p where p: "pendingFocusRef ?st = Some p"
      by (auto simp: arms_def split: option.splits)
    have f: "fire h ?st = arm (clearTimeout h ?st)"
      using t by (simp add: fire_def runCallback_def)
    have okc: "timersOk (clearTimeout h ?st)" using ok by (rule timersOk_clearTimeout)
    have pc: "pendingFocusRef (clearTimeout h ?st) = Some p" using p by (simp add: clearTimeout_def)
    from arm_highlightTimers [OF okc pc] show ?thesis
      unfolding f by (simp add: clearTimeout_def)
  qed
  with one show ?thesis by blast
qed

theorem one_highlight_timer_witness:
  "highlightTimers
     (run [FocusEffect (Some 7) [\<lparr> id' = 7 \<rparr>], Fire 1, Tick 1000,
           FocusEffect (Some 7) [\<lparr> id' = 7 \<rparr>]] initial) =
     [\<lparr> handle = 2, due = 4500, callback = ClearHighlight \<rparr>]
   \<and> arms 3
       (run [FocusEffect (Some 7) [\<lparr> id' = 7 \<rparr>], Fire 1, Tick 1000,
             FocusEffect (Some 7) [\<lparr> id' = 7 \<rparr>]] initial)
   \<and> highlightTimers
       (fire 3
         (run [FocusEffect (Some 7) [\<lparr> id' = 7 \<rparr>], Fire 1, Tick 1000,
               FocusEffect (Some 7) [\<lparr> id' = 7 \<rparr>]] initial)) =
       [\<lparr> handle = 4, due = 5500, callback = ClearHighlight \<rparr>]"
proof -
  let ?evs = "[FocusEffect (Some 7) [\<lparr> id' = 7 \<rparr>], Fire 1, Tick 1000,
               FocusEffect (Some 7) [\<lparr> id' = 7 \<rparr>]]"
  have s: "run ?evs initial =
      \<lparr> now = 1000, nextHandle = 4,
        timers = [\<lparr> handle = 2, due = 4500, callback = ClearHighlight \<rparr>,
                  \<lparr> handle = 3, due = 1000, callback = Arm \<rparr>],
        paginationModel = \<lparr> page = 0, pageSize = 10 \<rparr>,
        highlightId = Some 7,
        pendingFocusRef = Some \<lparr> id' = 7, targetPage = 0, rowIndexWithinPage = 0 \<rparr>,
        highlightTimerRef = Some 2, scrollRequests = [0] \<rparr>"
    by (simp add: initial_def step_def focusEffect_def Let_def setTimeout_def fire_def
          runCallback_def arm_def clearTimeout_def tick_def)
  have a: "arms 3 (run ?evs initial)" unfolding s by (simp add: arms_def)
  from one_highlight_timer [of ?evs 3] a show ?thesis
    unfolding s by (simp add: highlightTimers_def)
qed




text \<open>
  C8. When the bulk call fails, the mutation function of App.tsx settles without
  throwing (it returns \<open>null\<close>); it attempts one patch for every notification that is
  unread, in order, and for none that is read; and exactly the patches the backend
  accepts are applied, whatever happens to the others.
\<close>

theorem markAllRead_fallback:
  assumes "bulkAnswer be = None"
  shows "fst (markAllRead_mutationFn be notifications w) = Fulfilled None
    \<and> attempted (snd (markAllRead_mutationFn be notifications w)) =
        attempted w @ map id' (filter (\<lambda>n. \<not> isRead n)
                                (case notifications of None \<Rightarrow> [] | Some l \<Rightarrow> l))
    \<and> patched (snd (markAllRead_mutationFn be notifications w)) =
        patched w @ map (\<lambda>jn. id' (snd jn))
          (filter (\<lambda>jn. patchAnswer be (fst jn) (id' (snd jn)))
             (enumerate 0 (filter (\<lambda>n. \<not> isRead n)
                             (case notifications of None \<Rightarrow> [] | Some l \<Rightarrow> l))))"
  using assms by (simp add: markAllRead_mutationFn_def Let_def patchEach_log)

theorem markAllRead_fallback_witness:
  "fst (markAllRead_mutationFn \<lparr> bulkAnswer = None, patchAnswer = (\<lambda>k i. i = 2 \<or> i = 5) \<rparr>
          (Some sixNotifications) \<lparr> attempted = [], patched = [] \<rparr>) = Fulfilled None
   \<and> attempted (snd (markAllRead_mutationFn
          \<lparr> bulkAnswer = None, patchAnswer = (\<lambda>k i. i = 2 \<or> i = 5) \<rparr>
          (Some sixNotifications) \<lparr> attempted = [], patched = [] \<rparr>)) = [1, 2, 4, 5, 6]
   \<and> patched (snd (markAllRead_mutationFn
          \<lparr> bulkAnswer = None, patchAnswer = (\<lambda>k i. i = 2 \<or> i = 5) \<rparr>
          (Some sixNotifications) \<lparr> attempted = [], patched = [] \<rparr>)) = [2, 5]"
  using markAllRead_fallback [of "\<lparr> bulkAnswer = None, patchAnswer = (\<lambda>k i. i = 2 \<or> i = 5) \<rparr>"
          "Some sixNotifications" "\<lparr> attempted = [], patched = [] \<rparr>"]
  by (simp add: sixNotifications_def isRead_def enumerate_eq_zip upt_rec)




text \<open>
  C10. \<open>unwrapList\<close> is a total function of the response body: an array is returned as
  it is; an object is mapped to its \<open>results\<close> property when that is an array, and to
  the empty list otherwise; \<open>null\<close>, \<open>undefined\<close>, booleans, numbers and strings are
  mapped to the empty list.
\<close>

theorem unwrapList_total:
  "unwrapList (JArr xs) = xs
   \<and> unwrapList (JObj kvs) =
       (case map_of kvs ''results'' of Some (JArr r) \<Rightarrow> r | _ \<Rightarrow> [])
   \<and> unwrapList JNull = []
   \<and> unwrapList JUndefined = []
   \<and> unwrapList (JBool b) = []
   \<and> unwrapList (JNum n) = []
   \<and> unwrapList (JStr s) = []"
  by (simp add: unwrapList_def isArray_def typeof_def getProp_def elems_def
        split: option.split jsval.split)

theorem unwrapList_total_witness:
  "unwrapList (JArr [JNum 1, JNum 2]) = [JNum 1, JNum 2]
   \<and> unwrapList (JObj [(''count'', JNum 1), (''results'', JArr [JNum 7])]) = [JNum 7]
   \<and> unwrapList (JObj [(''results'', JStr ''none'')]) = []
   \<and> unwrapList (JObj [(''detail'', JStr ''Not found.'')]) = []
   \<and> unwrapList JNull = []"
  using unwrapList_total [of "[JNum 1, JNum 2]" "[(''count'', JNum 1), (''results'', JArr [JNum 7])]"]
        unwrapList_total [of "[]" "[(''results'', JStr ''none'')]"]
        unwrapList_total [of "[]" "[(''detail'', JStr ''Not found.'')]"]
  by simp

end
